theory Spec2Isabelle
  imports Complex_Main "HOL-Library.AList"
begin

section \<open>JavaScript values as the pump controller uses them\<close>

text \<open>
  The controller (\<^verbatim>\<open>PumpControl\<close>) reads and writes the fields of a ThingSpeak channel.
  Its arithmetic is limited to \<^verbatim>\<open>Number(x) <= 0\<close>, \<^verbatim>\<open>x === y\<close> and \<^verbatim>\<open>x !== y\<close>, so a
  number is modelled by its exact value: \<open>NaN\<close>, the two infinities, or a finite rational
  (every finite double is one). Negative zero is identified with zero, which none of the
  three comparisons can tell apart.
\<close>

datatype jsnum = NaN | NegInf | Fin rat | PosInf

datatype jsval = JUndefined | JNull | JBool bool | JNum jsnum | JStr string

text \<open>
  Field values are the JSON scalars and \<^verbatim>\<open>undefined\<close>. An object is the sequence of its
  property definitions, in the order an object literal or a JSON text writes them. A later
  definition of a key overrides an earlier one, and keys enumerate in the order of their
  first definition (no key used here is an array index, which JavaScript would move to the
  front).
\<close>

type_synonym object = "(string \<times> jsval) list"

definition getProp :: "object \<Rightarrow> string \<Rightarrow> jsval" where
  "getProp obj k = (case map_of (rev obj) k of None \<Rightarrow> JUndefined | Some v \<Rightarrow> v)"

text \<open>\<^verbatim>\<open>{...target, ...src}\<close>: the properties of \<open>src\<close> are assigned in order onto \<open>target\<close>.\<close>

definition spread :: "object \<Rightarrow> object \<Rightarrow> object" where
  "spread src target = fold (\<lambda>(k, v). AList.update k v) src target"

text \<open>\<^verbatim>\<open>a === b\<close> on the values above.\<close>

definition strict_eq :: "jsval \<Rightarrow> jsval \<Rightarrow> bool" where
  "strict_eq a b = (a = b \<and> a \<noteq> JNum NaN)"

text \<open>\<^verbatim>\<open>a === b\<close> and \<^verbatim>\<open>a <= b\<close> on numbers.\<close>

definition num_eq :: "jsnum \<Rightarrow> jsnum \<Rightarrow> bool" where
  "num_eq a b = (a = b \<and> a \<noteq> NaN)"

fun num_le :: "jsnum \<Rightarrow> jsnum \<Rightarrow> bool" where
  "num_le NaN b = False"
| "num_le a NaN = False"
| "num_le NegInf b = True"
| "num_le a PosInf = True"
| "num_le (Fin x) (Fin y) = (x \<le> y)"
| "num_le a b = False"

section \<open>The environment: network, clock and built-in conversions\<close>

datatype read_response =
    Read_rejected                      \<comment> \<open>\<^verbatim>\<open>fetch\<close> rejects (transport failure)\<close>
  | Read_http nat "object option"      \<comment> \<open>status, and the body as \<^verbatim>\<open>response.json()\<close>
                                           parses it (\<open>None\<close> when it throws)\<close>

datatype write_response =
    Write_rejected                     \<comment> \<open>\<^verbatim>\<open>fetch\<close> rejects\<close>
  | Write_http nat string              \<comment> \<open>status and \<^verbatim>\<open>response.text()\<close>\<close>

text \<open>
  Everything outside the component is a parameter. A request issued when \<open>n\<close> events have
  been recorded is answered by \<open>readResponse n\<close> or \<open>writeResponse n\<close>; the functions are
  arbitrary, so every behaviour of the remote service over time is covered.
  \<open>StringToNumber\<close> is what \<^verbatim>\<open>Number\<close> returns on a string, \<open>NumberToString\<close> is how a
  number prints, and \<open>toISOString n\<close> is \<^verbatim>\<open>new Date().toISOString()\<close> at that moment.

  The body of a read is taken as the object it parses to. A body that parses to a number
  (ThingSpeak answers \<^verbatim>\<open>-1\<close> for a channel it does not serve) has no property and is read
  and spread like the empty object; a \<^verbatim>\<open>null\<close> body is outside the model.
\<close>

record env =
  StringToNumber :: "string \<Rightarrow> jsnum"
  NumberToString :: "jsnum \<Rightarrow> string"
  readResponse :: "nat \<Rightarrow> read_response"
  writeResponse :: "nat \<Rightarrow> write_response"
  toISOString :: "nat \<Rightarrow> string"

text \<open>\<^verbatim>\<open>Number(v)\<close>.\<close>

fun Number :: "env \<Rightarrow> jsval \<Rightarrow> jsnum" where
  "Number e JUndefined = NaN"
| "Number e JNull = Fin 0"
| "Number e (JBool b) = (if b then Fin 1 else Fin 0)"
| "Number e (JNum n) = n"
| "Number e (JStr s) = StringToNumber e s"

text \<open>\<^verbatim>\<open>String(v)\<close>, the text a value takes in a query string.\<close>

fun toStringJS :: "env \<Rightarrow> jsval \<Rightarrow> string" where
  "toStringJS e JUndefined = ''undefined''"
| "toStringJS e JNull = ''null''"
| "toStringJS e (JBool b) = (if b then ''true'' else ''false'')"
| "toStringJS e (JNum n) = NumberToString e n"
| "toStringJS e (JStr s) = s"

text \<open>\<^verbatim>\<open>new URLSearchParams(record)\<close>: one name and text value per property, in order.\<close>

definition URLSearchParams :: "env \<Rightarrow> object \<Rightarrow> (string \<times> string) list" where
  "URLSearchParams e obj = map (\<lambda>(k, v). (k, toStringJS e v)) obj"

text \<open>\<^verbatim>\<open>response.ok\<close>.\<close>

definition ok :: "nat \<Rightarrow> bool" where
  "ok status = (200 \<le> status \<and> status \<le> 299)"

section \<open>Component state\<close>

datatype exn =
    NetworkError          \<comment> \<open>a rejected \<^verbatim>\<open>fetch\<close>\<close>
  | HttpError nat         \<comment> \<open>\<^verbatim>\<open>Erreur HTTP: <status>\<close>\<close>
  | JsonError             \<comment> \<open>\<^verbatim>\<open>response.json()\<close> throws\<close>
  | UpdateFailed          \<comment> \<open>the write answered a number \<open>\<le> 0\<close>\<close>
  | SyncFailed            \<comment> \<open>no re-read matched\<close>

datatype message =
    Fetch_failed_msg      \<comment> \<open>set by \<^verbatim>\<open>fetchChannelData\<close>\<close>
  | Update_failed_msg     \<comment> \<open>set when the retry budget is spent\<close>

datatype toast = Mode_adopted string | Pump_toggled string

datatype event =
    Fetch_last read_response              \<comment> \<open>GET \<^verbatim>\<open>feeds/last.json\<close> and its answer\<close>
  | Fetch_update "(string \<times> string) list" write_response
                                          \<comment> \<open>POST \<^verbatim>\<open>update\<close> with its query parameters,
                                              and its answer\<close>
  | SetTimeout nat                        \<comment> \<open>an awaited pause, in ms\<close>
  | Console_error exn
  | Toast toast

text \<open>
  The React state and the two refs, with the observable effects in chronological order
  (\<open>trace\<close>) and the timers handed to \<^verbatim>\<open>clearInterval\<close> (\<open>cleared\<close>). A state field
  holds the value last given to its setter. Rendering, and the effect of lines 59 to 63
  that re-derives the tab after a render in which \<^verbatim>\<open>field7\<close> changed, are not modelled.
\<close>

record state =
  channelData :: object
  loading :: bool
  updating :: bool
  error :: "message option"
  activeTab :: string
  modeChangeInProgress :: bool
  checkInterval :: "nat option"
  trace :: "event list"
  cleared :: "nat list"

text \<open>
  What the functions of one render close over: the props, and \<^verbatim>\<open>activeTab\<close> and
  \<^verbatim>\<open>channelData\<close> as that render saw them (both are \<^verbatim>\<open>const\<close> bindings of the component
  function). A state setter changes \<open>state\<close>, never these; a handler and the functions it
  calls share the closure of the render that created the handler.
\<close>

record render =
  readApiKey :: string
  writeApiKey :: string
  render_activeTab :: string
  render_channelData :: object

text \<open>
  The options of the executor, \<open>None\<close> for a property left out. The budget is an integer
  and the delay a natural number, as are the ones the component passes (20 and 2000, or the
  defaults 5 and 2000); a fractional, \<^verbatim>\<open>NaN\<close> or infinite budget is outside the model.
\<close>

record RetryOptions =
  retries :: "int option"
  delay :: "nat option"

section \<open>Snapshot reader\<close>

definition read_result :: "read_response \<Rightarrow> exn + object" where
  "read_result resp =
     (case resp of
        Read_rejected \<Rightarrow> Inl NetworkError
      | Read_http status body \<Rightarrow>
          if \<not> ok status then Inl (HttpError status)
          else (case body of None \<Rightarrow> Inl JsonError | Some data \<Rightarrow> Inr data))"

definition currentMode :: "env \<Rightarrow> object \<Rightarrow> jsnum" where
  "currentMode e data =
     (if getProp data ''field7'' \<noteq> JUndefined then Number e (getProp data ''field7'')
      else Fin 0)"

definition expectedMode :: "string \<Rightarrow> jsnum" where
  "expectedMode tab = (if tab = ''auto'' then Fin 0 else Fin 1)"

text \<open>Lines 81 to 92: the check made while a mode change is pending.\<close>

definition checkMode :: "env \<Rightarrow> render \<Rightarrow> object \<Rightarrow> state \<Rightarrow> state" where
  "checkMode e r data st =
     (if modeChangeInProgress st
         \<and> num_eq (currentMode e data) (expectedMode (render_activeTab r))
      then st\<lparr>modeChangeInProgress := False,
              checkInterval := None,
              cleared := cleared st @ (case checkInterval st of None \<Rightarrow> [] | Some t \<Rightarrow> [t])\<rparr>
      else st)"

definition fetchChannelData :: "env \<Rightarrow> render \<Rightarrow> state \<Rightarrow> (exn + object) \<times> state" where
  "fetchChannelData e r st =
     (let resp = readResponse e (length (trace st));
          st1 = st\<lparr>loading := True, error := None, trace := trace st @ [Fetch_last resp]\<rparr>
      in case read_result resp of
           Inl x \<Rightarrow>
             (Inl x, st1\<lparr>trace := trace st1 @ [Console_error x],
                         error := Some Fetch_failed_msg,
                         loading := False\<rparr>)
         | Inr data \<Rightarrow>
             (Inr data, (checkMode e r data (st1\<lparr>channelData := data\<rparr>))\<lparr>loading := False\<rparr>))"

section \<open>Write-verify-retry executor\<close>

text \<open>Lines 118 to 123: the merged record and the query parameters made of it.\<close>

definition mergedRecord :: "string \<Rightarrow> object \<Rightarrow> object \<Rightarrow> string \<Rightarrow> object" where
  "mergedRecord key currentData updates now =
     AList.update ''created_at'' (JStr now)
       (spread updates (spread currentData [(''api_key'', JStr key)]))"

definition buildParams ::
  "env \<Rightarrow> string \<Rightarrow> object \<Rightarrow> object \<Rightarrow> string \<Rightarrow> (string \<times> string) list" where
  "buildParams e key currentData updates now =
     URLSearchParams e (mergedRecord key currentData updates now)"

text \<open>\<^verbatim>\<open>Object.keys(updates)[0]\<close>, used as a property name.\<close>

definition firstKey :: "object \<Rightarrow> string" where
  "firstKey updates = (case updates of [] \<Rightarrow> ''undefined'' | (k, v) # rest \<Rightarrow> k)"

definition verifyUpdate :: "env \<Rightarrow> render \<Rightarrow> object \<Rightarrow> state \<Rightarrow> (exn + bool) \<times> state" where
  "verifyUpdate e r updates st =
     (case fetchChannelData e r st of
        (Inl x, st') \<Rightarrow> (Inl x, st')
      | (Inr newData, st') \<Rightarrow>
          (Inr (strict_eq (getProp newData (firstKey updates))
                          (getProp updates (firstKey updates))), st'))"

text \<open>
  The \<^verbatim>\<open>for\<close> loop of lines 144 to 150 with \<open>n\<close> iterations left; its value is
  \<^verbatim>\<open>verified\<close>.
\<close>

fun verifyLoop :: "env \<Rightarrow> render \<Rightarrow> object \<Rightarrow> nat \<Rightarrow> state \<Rightarrow> (exn + bool) \<times> state" where
  "verifyLoop e r updates 0 st = (Inr False, st)"
| "verifyLoop e r updates (Suc n) st =
     (case verifyUpdate e r updates st of
        (Inl x, st') \<Rightarrow> (Inl x, st')
      | (Inr True, st') \<Rightarrow> (Inr True, st')
      | (Inr False, st') \<Rightarrow>
          verifyLoop e r updates n (st'\<lparr>trace := trace st' @ [SetTimeout 2000]\<rparr>))"

text \<open>Lines 135 to 154: what follows an accepted write.\<close>

definition verifyPhase :: "env \<Rightarrow> render \<Rightarrow> object \<Rightarrow> state \<Rightarrow> (exn + bool) \<times> state" where
  "verifyPhase e r updates st =
     (case verifyLoop e r updates 3 st of
        (Inl x, st') \<Rightarrow> (Inl x, st')
      | (Inr verified, st') \<Rightarrow> if \<not> verified then (Inl SyncFailed, st') else (Inr True, st'))"

text \<open>Lines 125 to 154: the write request and what follows it.\<close>

definition submitUpdate ::
  "env \<Rightarrow> render \<Rightarrow> object \<Rightarrow> object \<Rightarrow> state \<Rightarrow> (exn + bool) \<times> state" where
  "submitUpdate e r updates currentData st =
     (let now = length (trace st);
          params = buildParams e (writeApiKey r) currentData updates (toISOString e now);
          resp = writeResponse e now;
          st1 = st\<lparr>trace := trace st @ [Fetch_update params resp]\<rparr>
      in case resp of
           Write_rejected \<Rightarrow> (Inl NetworkError, st1)
         | Write_http status result \<Rightarrow>
             if \<not> ok status then (Inl (HttpError status), st1)
             else if num_le (StringToNumber e result) (Fin 0) then (Inl UpdateFailed, st1)
             else verifyPhase e r updates st1)"

text \<open>The \<^verbatim>\<open>try\<close> block of \<^verbatim>\<open>attemptUpdate\<close>.\<close>

definition tryUpdate :: "env \<Rightarrow> render \<Rightarrow> object \<Rightarrow> state \<Rightarrow> (exn + bool) \<times> state" where
  "tryUpdate e r updates st =
     (case fetchChannelData e r (st\<lparr>updating := True, error := None\<rparr>) of
        (Inl x, st') \<Rightarrow> (Inl x, st')
      | (Inr currentData, st') \<Rightarrow> submitUpdate e r updates currentData st')"

text \<open>
  \<^verbatim>\<open>attemptUpdate\<close> with the counter \<^verbatim>\<open>attempts\<close> it shares with its recursive calls.
  The \<^verbatim>\<open>finally\<close> block of a call runs after the call it awaits has returned.
\<close>

function attemptUpdate ::
  "env \<Rightarrow> render \<Rightarrow> object \<Rightarrow> int \<Rightarrow> nat \<Rightarrow> nat \<Rightarrow> state \<Rightarrow> bool \<times> state" where
  "attemptUpdate e r updates retries_n delay_n attempts st =
     (case tryUpdate e r updates st of
        (Inr b, st') \<Rightarrow> (True, st'\<lparr>updating := False\<rparr>)
      | (Inl x, st') \<Rightarrow>
          if int (Suc attempts) < retries_n
          then (case attemptUpdate e r updates retries_n delay_n (Suc attempts)
                       (st'\<lparr>trace := trace st' @ [SetTimeout delay_n]\<rparr>) of
                  (b, st'') \<Rightarrow> (b, st''\<lparr>updating := False\<rparr>))
          else (False, st'\<lparr>trace := trace st' @ [Console_error x],
                           error := Some Update_failed_msg,
                           updating := False\<rparr>))"
  by pat_completeness auto
termination
  by (relation "measure (\<lambda>(e, r, updates, retries_n, delay_n, attempts, st).
                   nat (retries_n - int attempts))") auto

declare attemptUpdate.simps [simp del]

text \<open>Line 109: \<^verbatim>\<open>const { retries = 5, delay = 2000 } = options\<close>.\<close>

definition retryBudget :: "RetryOptions \<Rightarrow> int" where
  "retryBudget options = (case retries options of None \<Rightarrow> 5 | Some n \<Rightarrow> n)"

definition retryDelay :: "RetryOptions \<Rightarrow> nat" where
  "retryDelay options = (case delay options of None \<Rightarrow> 2000 | Some d \<Rightarrow> d)"

definition updateThingSpeak ::
  "env \<Rightarrow> render \<Rightarrow> object \<Rightarrow> RetryOptions \<Rightarrow> state \<Rightarrow> bool \<times> state" where
  "updateThingSpeak e r updates options st =
     attemptUpdate e r updates (retryBudget options) (retryDelay options) 0 st"

section \<open>Mode and pump handlers\<close>

definition newMode :: "string \<Rightarrow> nat" where
  "newMode v = (if v = ''auto'' then 0 else 1)"

text \<open>\<^verbatim>\<open>newMode.toString()\<close> on the two values \<open>newMode\<close> takes.\<close>

definition modeString :: "nat \<Rightarrow> string" where
  "modeString m = (if m = 0 then ''0'' else ''1'')"

definition elevated :: RetryOptions where
  "elevated = \<lparr>retries = Some 20, delay = Some 2000\<rparr>"

definition handleModeChange :: "env \<Rightarrow> render \<Rightarrow> string \<Rightarrow> state \<Rightarrow> state" where
  "handleModeChange e r v st =
     (let st1 = st\<lparr>activeTab := v\<rparr>
      in if \<not> num_eq (Number e (getProp (render_channelData r) ''field7''))
                     (Fin (of_nat (newMode v)))
         then (case updateThingSpeak e r [(''field7'', JStr (modeString (newMode v)))] elevated
                      (st1\<lparr>modeChangeInProgress := True, updating := True\<rparr>) of
                 (success, st2) \<Rightarrow>
                   (if success
                    then st2\<lparr>trace := trace st2 @ [Toast (Mode_adopted v)]\<rparr>
                    else st2\<lparr>activeTab := (if newMode v = 0 then ''manual'' else ''auto'')\<rparr>)
                   \<lparr>modeChangeInProgress := False, updating := False\<rparr>)
         else st1)"

definition pumpNewState :: "render \<Rightarrow> string" where
  "pumpNewState r =
     (if strict_eq (getProp (render_channelData r) ''field5'') (JStr ''1'') then ''0'' else ''1'')"

text \<open>Line 226: \<^verbatim>\<open>{ ...prev, field5: prev.field5 }\<close>.\<close>

definition revertPump :: "object \<Rightarrow> object" where
  "revertPump prev = AList.update ''field5'' (getProp prev ''field5'') (spread prev [])"

definition handlePumpToggle :: "env \<Rightarrow> render \<Rightarrow> state \<Rightarrow> state" where
  "handlePumpToggle e r st =
     (case updateThingSpeak e r [(''field5'', JStr (pumpNewState r))] elevated
             (st\<lparr>updating := True\<rparr>) of
        (success, st2) \<Rightarrow>
          (if success
           then st2\<lparr>trace := trace st2 @ [Toast (Pump_toggled (pumpNewState r))]\<rparr>
           else st2\<lparr>channelData := revertPump (channelData st2)\<rparr>)
          \<lparr>updating := False\<rparr>)"

section \<open>Reading a trace\<close>

fun is_read :: "event \<Rightarrow> bool" where
  "is_read (Fetch_last resp) = True"
| "is_read ev = False"

fun is_write :: "event \<Rightarrow> bool" where
  "is_write (Fetch_update params resp) = True"
| "is_write ev = False"

fun is_pause :: "event \<Rightarrow> bool" where
  "is_pause (SetTimeout ms) = True"
| "is_pause ev = False"

text \<open>
  Every write request of a trace from position \<open>n\<close> on comes directly after a read that
  returned a snapshot, and carries \<open>buildParams\<close> of that snapshot and the clock's value.
\<close>

definition writes_merged :: "env \<Rightarrow> render \<Rightarrow> object \<Rightarrow> nat \<Rightarrow> event list \<Rightarrow> bool" where
  "writes_merged e r updates n tr =
     (\<forall>pre params resp post.
        tr = pre @ Fetch_update params resp # post \<longrightarrow> n \<le> length pre \<longrightarrow>
        (\<exists>status S. pre \<noteq> [] \<and> last pre = Fetch_last (Read_http status (Some S)) \<and> ok status
           \<and> params = buildParams e (writeApiKey r) S updates (toISOString e (length pre))))"

section \<open>Worked environments\<close>

text \<open>
  A string-to-number conversion for the examples below. It reads the empty string and an
  optionally signed run of decimal digits as ECMAScript does. On every other string it
  gives \<open>NaN\<close>, which is ECMAScript's answer for a string that is no numeric literal; the
  examples apply it to digit runs and to the word \<^verbatim>\<open>abc\<close> only.
\<close>

fun digitsValue :: "string \<Rightarrow> nat \<Rightarrow> nat option" where
  "digitsValue [] acc = Some acc"
| "digitsValue (c # cs) acc =
     (if c \<in> set ''0123456789'' then digitsValue cs (10 * acc + (of_char c - 48)) else None)"

definition integerLiteral :: "string \<Rightarrow> jsnum" where
  "integerLiteral s =
     (case s of
        [] \<Rightarrow> Fin 0
      | c # cs \<Rightarrow>
          if (c = CHR ''-'' \<or> c = CHR ''+'') \<and> cs \<noteq> []
          then (case digitsValue cs 0 of
                  None \<Rightarrow> NaN
                | Some n \<Rightarrow> Fin (if c = CHR ''-'' then - of_nat n else of_nat n))
          else (case digitsValue s 0 of None \<Rightarrow> NaN | Some n \<Rightarrow> Fin (of_nat n)))"

text \<open>How the integers of the examples print.\<close>

definition integerText :: "jsnum \<Rightarrow> string" where
  "integerText n =
     (if n = Fin 41 then ''41'' else if n = Fin 42 then ''42'' else if n = Fin 0 then ''0''
      else ''NaN'')"

definition autoSnapshot :: object where
  "autoSnapshot =
     [(''created_at'', JStr ''2025-05-01T10:00:00Z''), (''entry_id'', JNum (Fin 41)),
      (''field3'', JStr ''37''), (''field5'', JStr ''0''), (''field7'', JStr ''0'')]"

definition manualSnapshot :: object where
  "manualSnapshot =
     [(''created_at'', JStr ''2025-05-01T10:00:05Z''), (''entry_id'', JNum (Fin 42)),
      (''field3'', JStr ''37''), (''field5'', JStr ''0''), (''field7'', JStr ''1'')]"

text \<open>The channel answers every read; every write is answered \<^verbatim>\<open>0\<close>.\<close>

definition env_rejecting :: env where
  "env_rejecting =
     \<lparr>StringToNumber = integerLiteral, NumberToString = integerText,
      readResponse = (\<lambda>n. Read_http 200 (Some autoSnapshot)),
      writeResponse = (\<lambda>n. Write_http 200 ''0''),
      toISOString = (\<lambda>n. ''2025-05-01T10:00:01.000Z'')\<rparr>"

text \<open>
  Writes are accepted with entry id 42; the channel shows the manual mode from the third
  event on, that is after one read and one write.
\<close>

definition env_accepting :: env where
  "env_accepting =
     \<lparr>StringToNumber = integerLiteral, NumberToString = integerText,
      readResponse = (\<lambda>n. Read_http 200 (Some (if n < 2 then autoSnapshot else manualSnapshot))),
      writeResponse = (\<lambda>n. Write_http 200 ''42''),
      toISOString = (\<lambda>n. ''2025-05-01T10:00:01.000Z'')\<rparr>"

text \<open>The write endpoint answers with a page that is not a number.\<close>

definition env_garbled :: env where
  "env_garbled =
     \<lparr>StringToNumber = integerLiteral, NumberToString = integerText,
      readResponse = (\<lambda>n. Read_http 200 (Some autoSnapshot)),
      writeResponse = (\<lambda>n. Write_http 200 ''abc''),
      toISOString = (\<lambda>n. ''2025-05-01T10:00:01.000Z'')\<rparr>"

text \<open>The channel has no mode field.\<close>

definition env_modeless :: env where
  "env_modeless =
     \<lparr>StringToNumber = integerLiteral, NumberToString = integerText,
      readResponse = (\<lambda>n. Read_http 200 (Some [(''field5'', JStr ''1'')])),
      writeResponse = (\<lambda>n. Write_http 200 ''0''),
      toISOString = (\<lambda>n. ''2025-05-01T10:00:01.000Z'')\<rparr>"

definition render_auto :: render where
  "render_auto =
     \<lparr>readApiKey = ''RKEY'', writeApiKey = ''WKEY'',
      render_activeTab = ''auto'', render_channelData = autoSnapshot\<rparr>"

definition state_idle :: state where
  "state_idle =
     \<lparr>channelData = autoSnapshot, loading = False, updating = False, error = None,
      activeTab = ''auto'', modeChangeInProgress = False, checkInterval = None,
      trace = [], cleared = []\<rparr>"

text \<open>A mode change is pending and a confirmation timer is running.\<close>

definition state_pending :: state where
  "state_pending = state_idle\<lparr>modeChangeInProgress := True, checkInterval := Some 3\<rparr>"

text \<open>The parameters submitted when \<^verbatim>\<open>field7\<close> is set to \<^verbatim>\<open>"1"\<close> over \<open>autoSnapshot\<close>.\<close>

definition mergedRequest :: "(string \<times> string) list" where
  "mergedRequest =
     [(''api_key'', ''WKEY''), (''created_at'', ''2025-05-01T10:00:01.000Z''),
      (''entry_id'', ''41''), (''field3'', ''37''), (''field5'', ''0''), (''field7'', ''1'')]"

text \<open>A channel one of whose fields was never written: the service sends it as \<^verbatim>\<open>null\<close>.\<close>

definition sparseSnapshot :: object where
  "sparseSnapshot =
     [(''created_at'', JStr ''2025-05-01T10:00:00Z''), (''field2'', JNull),
      (''field7'', JStr ''0'')]"

definition env_sparse :: env where
  "env_sparse =
     \<lparr>StringToNumber = integerLiteral, NumberToString = integerText,
      readResponse = (\<lambda>n. Read_http 200 (Some sparseSnapshot)),
      writeResponse = (\<lambda>n. Write_http 200 ''42''),
      toISOString = (\<lambda>n. ''2025-05-01T10:00:01.000Z'')\<rparr>"

text \<open>The parameters submitted over \<open>sparseSnapshot\<close> when \<^verbatim>\<open>field7\<close> is set to \<^verbatim>\<open>"0"\<close>.\<close>

definition sparseRequest :: "(string \<times> string) list" where
  "sparseRequest =
     [(''api_key'', ''WKEY''), (''created_at'', ''2025-05-01T10:00:01.000Z''),
      (''field2'', ''null''), (''field7'', ''0'')]"

text \<open>The parameters submitted when \<^verbatim>\<open>field7\<close> is set to \<^verbatim>\<open>"1"\<close> over \<open>manualSnapshot\<close>.\<close>

definition secondRequest :: "(string \<times> string) list" where
  "secondRequest =
     [(''api_key'', ''WKEY''), (''created_at'', ''2025-05-01T10:00:01.000Z''),
      (''entry_id'', ''42''), (''field3'', ''37''), (''field5'', ''0''), (''field7'', ''1'')]"

section \<open>Properties of objects\<close>

lemma map_of_spread: "map_of (spread s t) = map_of t ++ map_of (rev s)"
  unfolding spread_def
  by (induction s arbitrary: t) (auto simp: AList.update_conv' map_add_upd_left split: prod.splits)

lemma distinct_spread: "distinct (map fst t) \<Longrightarrow> distinct (map fst (spread s t))"
  unfolding spread_def
  by (induction s arbitrary: t) (auto simp: AList.distinct_update)

lemma map_of_rev_distinct: "distinct (map fst xs) \<Longrightarrow> map_of (rev xs) = map_of xs"
proof (induction xs)
  case Nil
  then show ?case by simp
next
  case (Cons p xs)
  obtain k v where p: "p = (k, v)" by (cases p)
  from Cons.prems p have notin: "k \<notin> fst ` set xs" and d: "distinct (map fst xs)"
    by auto
  have "map_of (rev (p # xs)) = map_of [(k, v)] ++ map_of (rev xs)"
    by (simp add: p map_of_append)
  also have "\<dots> = map_of [(k, v)] ++ map_of xs"
    using Cons.IH d by simp
  also have "\<dots> = (map_of xs)(k \<mapsto> v)"
  proof
    fix x
    have none: "map_of xs k = None"
      using notin by (simp add: map_of_eq_None_iff)
    show "(map_of [(k, v)] ++ map_of xs) x = ((map_of xs)(k \<mapsto> v)) x"
      using none by (cases "x = k") (simp_all add: map_add_def split: option.splits)
  qed
  finally show ?case by (simp add: p)
qed

lemma getProp_distinct:
  "distinct (map fst obj) \<Longrightarrow>
   getProp obj k = (case map_of obj k of None \<Rightarrow> JUndefined | Some v \<Rightarrow> v)"
  by (simp add: getProp_def map_of_rev_distinct)

lemma getProp_absent: "k \<notin> fst ` set obj \<Longrightarrow> getProp obj k = JUndefined"
proof -
  assume "k \<notin> fst ` set obj"
  then have "map_of (rev obj) k = None"
    by (simp add: map_of_eq_None_iff)
  then show ?thesis by (simp add: getProp_def)
qed

lemma getProp_spread:
  assumes "distinct (map fst t)"
  shows "getProp (spread s t) k = (if k \<in> fst ` set s then getProp s k else getProp t k)"
proof -
  have d: "distinct (map fst (spread s t))"
    using assms by (rule distinct_spread)
  have "getProp (spread s t) k =
          (case (map_of t ++ map_of (rev s)) k of None \<Rightarrow> JUndefined | Some v \<Rightarrow> v)"
    by (simp add: getProp_distinct [OF d] map_of_spread)
  also have "\<dots> = (if k \<in> fst ` set s then getProp s k else getProp t k)"
  proof (cases "k \<in> fst ` set s")
    case True
    then have "map_of (rev s) k \<noteq> None"
      by (simp add: map_of_eq_None_iff)
    then show ?thesis
      using True by (auto simp: getProp_def map_add_def split: option.splits)
  next
    case False
    then have "map_of (rev s) k = None"
      by (simp add: map_of_eq_None_iff)
    then show ?thesis
      using False by (simp add: map_add_def getProp_distinct [OF assms])
  qed
  finally show ?thesis .
qed

lemma getProp_update:
  assumes "distinct (map fst t)"
  shows "getProp (AList.update k v t) k' = (if k' = k then v else getProp t k')"
proof -
  have "distinct (map fst (AList.update k v t))"
    using assms by (rule AList.distinct_update)
  then show ?thesis
    by (simp add: getProp_distinct assms AList.update_conv')
qed

lemma map_of_rev_getProp:
  "map_of (rev obj) k = (if k \<in> fst ` set obj then Some (getProp obj k) else None)"
proof (cases "k \<in> fst ` set obj")
  case True
  then have "map_of (rev obj) k \<noteq> None"
    by (simp add: map_of_eq_None_iff)
  with True show ?thesis
    by (auto simp: getProp_def)
next
  case False
  then show ?thesis
    by (simp add: map_of_eq_None_iff)
qed

lemma map_of_mergedRecord:
  "map_of (mergedRecord key S u now) k =
     (if k = ''created_at'' then Some (JStr now)
      else if k \<in> fst ` set u then Some (getProp u k)
      else if k \<in> fst ` set S then Some (getProp S k)
      else if k = ''api_key'' then Some (JStr key)
      else None)"
  unfolding mergedRecord_def
  by (simp add: AList.update_conv' map_of_spread map_add_def map_of_rev_getProp)

lemma map_of_URLSearchParams:
  "map_of (URLSearchParams e obj) k = map_option (toStringJS e) (map_of obj k)"
  unfolding URLSearchParams_def by (induction obj) auto

lemma map_of_buildParams:
  "map_of (buildParams e key S u now) k =
     (if k = ''created_at'' then Some now
      else if k \<in> fst ` set u then Some (toStringJS e (getProp u k))
      else if k \<in> fst ` set S then Some (toStringJS e (getProp S k))
      else if k = ''api_key'' then Some key
      else None)"
  by (simp add: buildParams_def map_of_URLSearchParams map_of_mergedRecord)

lemma getProp_revertPump: "getProp (revertPump prev) k = getProp prev k"
proof -
  have d0: "distinct (map fst ([] :: object))" by simp
  have d1: "distinct (map fst (spread prev []))"
    by (rule distinct_spread [OF d0])
  have nil: "getProp [] k = JUndefined" by (simp add: getProp_def)
  show ?thesis
    unfolding revertPump_def
    by (simp add: getProp_update [OF d1] getProp_spread [OF d0] nil getProp_absent)
qed

section \<open>What a fetch records\<close>

lemma read_result_Inr:
  "read_result resp = Inr data \<longleftrightarrow> (\<exists>status. resp = Read_http status (Some data) \<and> ok status)"
  by (auto simp: read_result_def split: read_response.splits option.splits if_splits)

lemma trace_checkMode [simp]: "trace (checkMode e r data st) = trace st"
  by (simp add: checkMode_def)

lemma fetch_ok:
  assumes "read_result (readResponse e (length (trace st))) = Inr data"
  shows "\<exists>st'. fetchChannelData e r st = (Inr data, st') \<and>
               trace st' = trace st @ [Fetch_last (readResponse e (length (trace st)))]"
  using assms by (simp add: fetchChannelData_def Let_def)

lemma fetch_err:
  assumes "read_result (readResponse e (length (trace st))) = Inl x"
  shows "\<exists>st'. fetchChannelData e r st = (Inl x, st') \<and>
               trace st' = trace st @ [Fetch_last (readResponse e (length (trace st))), Console_error x]"
  using assms by (simp add: fetchChannelData_def Let_def)

lemma fetch_result:
  "fst (fetchChannelData e r st) = read_result (readResponse e (length (trace st)))"
  by (simp add: fetchChannelData_def Let_def split: sum.splits)

section \<open>Write requests carry the merged snapshot\<close>

lemma wm_start: "writes_merged e r u (length tr) tr"
  by (auto simp: writes_merged_def)

lemma wm_other:
  assumes "writes_merged e r u n tr" and "\<not> is_write ev"
  shows "writes_merged e r u n (tr @ [ev])"
  unfolding writes_merged_def
proof (intro allI impI)
  fix pre params resp post
  assume eq: "tr @ [ev] = pre @ Fetch_update params resp # post" and n: "n \<le> length pre"
  show "\<exists>status S. pre \<noteq> [] \<and> last pre = Fetch_last (Read_http status (Some S)) \<and> ok status
           \<and> params = buildParams e (writeApiKey r) S u (toISOString e (length pre))"
  proof (cases post rule: rev_cases)
    case Nil
    with eq have "ev = Fetch_update params resp" by simp
    with assms(2) show ?thesis by simp
  next
    case (snoc post' z)
    have "tr @ [ev] = (pre @ Fetch_update params resp # post') @ [z]"
      using eq [unfolded snoc] by (simp only: append_assoc append_Cons)
    then have "tr = pre @ Fetch_update params resp # post'"
      by (simp only: append1_eq_conv)
    with assms(1) n show ?thesis
      unfolding writes_merged_def by blast
  qed
qed

lemma wm_write:
  assumes "writes_merged e r u n tr" and "tr \<noteq> []"
    and "last tr = Fetch_last (Read_http status (Some S))" and "ok status"
  shows "writes_merged e r u n
           (tr @ [Fetch_update (buildParams e (writeApiKey r) S u (toISOString e (length tr))) resp])"
  unfolding writes_merged_def
proof (intro allI impI)
  fix pre params resp' post
  assume eq: "tr @ [Fetch_update (buildParams e (writeApiKey r) S u (toISOString e (length tr))) resp]
                = pre @ Fetch_update params resp' # post"
    and n: "n \<le> length pre"
  show "\<exists>status S. pre \<noteq> [] \<and> last pre = Fetch_last (Read_http status (Some S)) \<and> ok status
           \<and> params = buildParams e (writeApiKey r) S u (toISOString e (length pre))"
  proof (cases post rule: rev_cases)
    case Nil
    with eq have "pre = tr" and "params = buildParams e (writeApiKey r) S u (toISOString e (length tr))"
      by auto
    with assms(2-4) show ?thesis by blast
  next
    case (snoc post' z)
    have "tr @ [Fetch_update (buildParams e (writeApiKey r) S u (toISOString e (length tr))) resp]
                    = (pre @ Fetch_update params resp' # post') @ [z]"
      using eq [unfolded snoc] by (simp only: append_assoc append_Cons)
    then have "tr = pre @ Fetch_update params resp' # post'"
      by (simp only: append1_eq_conv)
    with assms(1) n show ?thesis
      unfolding writes_merged_def by blast
  qed
qed

lemma wm_fetch:
  assumes "writes_merged e r u n (trace st)"
  shows "writes_merged e r u n (trace (snd (fetchChannelData e r st)))"
proof (cases "read_result (readResponse e (length (trace st)))")
  case (Inl x)
  from fetch_err [OF Inl, of r] obtain st' where
    "fetchChannelData e r st = (Inl x, st')"
    "trace st' = (trace st @ [Fetch_last (readResponse e (length (trace st)))]) @ [Console_error x]"
    by auto
  then show ?thesis
    using assms by (simp only: snd_conv) (intro wm_other, simp_all)
next
  case (Inr data)
  from fetch_ok [OF Inr, of r] obtain st' where
    "fetchChannelData e r st = (Inr data, st')"
    "trace st' = trace st @ [Fetch_last (readResponse e (length (trace st)))]"
    by auto
  then show ?thesis
    using assms by (simp only: snd_conv) (intro wm_other, simp_all)
qed

lemma wm_verifyUpdate:
  assumes "writes_merged e r u n (trace st)"
  shows "writes_merged e r u n (trace (snd (verifyUpdate e r u st)))"
proof -
  have "trace (snd (verifyUpdate e r u st)) = trace (snd (fetchChannelData e r st))"
    by (simp add: verifyUpdate_def split: prod.splits sum.splits)
  then show ?thesis using wm_fetch [OF assms] by simp
qed

lemma wm_verifyLoop:
  "writes_merged e r u n (trace st) \<Longrightarrow>
   writes_merged e r u n (trace (snd (verifyLoop e r u k st)))"
proof (induction k arbitrary: st)
  case 0
  then show ?case by simp
next
  case (Suc k)
  obtain res st' where v: "verifyUpdate e r u st = (res, st')"
    by (cases "verifyUpdate e r u st")
  from wm_verifyUpdate [OF Suc.prems] v have w: "writes_merged e r u n (trace st')"
    by simp
  show ?case
  proof (cases res)
    case (Inl x)
    with v w show ?thesis by simp
  next
    case (Inr b)
    show ?thesis
    proof (cases b)
      case True
      with Inr v w show ?thesis by simp
    next
      case False
      have "writes_merged e r u n (trace (st'\<lparr>trace := trace st' @ [SetTimeout 2000]\<rparr>))"
        using wm_other [OF w, of "SetTimeout 2000"] by simp
      from Suc.IH [OF this] show ?thesis
        using Inr False v by simp
    qed
  qed
qed

lemma wm_verifyPhase:
  assumes "writes_merged e r u n (trace st)"
  shows "writes_merged e r u n (trace (snd (verifyPhase e r u st)))"
proof -
  have "trace (snd (verifyPhase e r u st)) = trace (snd (verifyLoop e r u 3 st))"
    by (simp add: verifyPhase_def split: prod.splits sum.splits)
  then show ?thesis using wm_verifyLoop [OF assms] by simp
qed

lemma wm_submit:
  assumes "writes_merged e r u n (trace st)" and "trace st \<noteq> []"
    and "last (trace st) = Fetch_last (Read_http status (Some S))" and "ok status"
  shows "writes_merged e r u n (trace (snd (submitUpdate e r u S st)))"
proof -
  let ?p = "buildParams e (writeApiKey r) S u (toISOString e (length (trace st)))"
  let ?resp = "writeResponse e (length (trace st))"
  let ?st1 = "st\<lparr>trace := trace st @ [Fetch_update ?p ?resp]\<rparr>"
  have w: "writes_merged e r u n (trace ?st1)"
    using wm_write [OF assms] by simp
  have "snd (submitUpdate e r u S st) = ?st1 \<or>
        snd (submitUpdate e r u S st) = snd (verifyPhase e r u ?st1)"
    by (simp add: submitUpdate_def Let_def split: write_response.splits)
  then show ?thesis
    using w wm_verifyPhase [OF w] by auto
qed

lemma wm_try:
  assumes "writes_merged e r u n (trace st)"
  shows "writes_merged e r u n (trace (snd (tryUpdate e r u st)))"
proof -
  let ?st0 = "st\<lparr>updating := True, error := None\<rparr>"
  have w0: "writes_merged e r u n (trace ?st0)"
    using assms by simp
  show ?thesis
  proof (cases "read_result (readResponse e (length (trace ?st0)))")
    case (Inl x)
    from fetch_err [OF Inl, of r] obtain st' where
      f: "fetchChannelData e r ?st0 = (Inl x, st')" by auto
    then have "snd (tryUpdate e r u st) = snd (fetchChannelData e r ?st0)"
      by (simp add: tryUpdate_def)
    then show ?thesis using wm_fetch [OF w0] by simp
  next
    case (Inr data)
    from fetch_ok [OF Inr, of r] obtain st' where
      f: "fetchChannelData e r ?st0 = (Inr data, st')" and
      t: "trace st' = trace ?st0 @ [Fetch_last (readResponse e (length (trace ?st0)))]"
      by auto
    from Inr obtain status where
      rr: "readResponse e (length (trace ?st0)) = Read_http status (Some data)" "ok status"
      by (auto simp: read_result_Inr)
    have w1: "writes_merged e r u n (trace st')"
      using wm_fetch [OF w0] f by simp
    have "writes_merged e r u n (trace (snd (submitUpdate e r u data st')))"
      using rr by (intro wm_submit [OF w1, of status]) (simp_all add: t)
    then show ?thesis
      by (simp add: tryUpdate_def f)
  qed
qed

lemma wm_attempt:
  "writes_merged e r u n (trace st) \<Longrightarrow>
   writes_merged e r u n (trace (snd (attemptUpdate e r u k d a st)))"
proof (induction e r u k d a st rule: attemptUpdate.induct)
  case (1 e r u k d a st)
  obtain res st1 where t: "tryUpdate e r u st = (res, st1)"
    by (cases "tryUpdate e r u st")
  from wm_try [OF "1.prems"] t have w1: "writes_merged e r u n (trace st1)"
    by simp
  show ?case
  proof (cases res)
    case (Inr b)
    then show ?thesis
      using t w1 by (subst attemptUpdate.simps) simp
  next
    case (Inl x)
    show ?thesis
    proof (cases "int (Suc a) < k")
      case True
      let ?st2 = "st1\<lparr>trace := trace st1 @ [SetTimeout d]\<rparr>"
      have "writes_merged e r u n (trace ?st2)"
        using wm_other [OF w1, of "SetTimeout d"] by simp
      from "1.IH" [OF t [symmetric, unfolded Inl] refl True this]
      have w3: "writes_merged e r u n
                  (trace (snd (attemptUpdate e r u k d (Suc a) ?st2)))" .
      obtain b st3 where a3: "attemptUpdate e r u k d (Suc a) ?st2 = (b, st3)"
        by (cases "attemptUpdate e r u k d (Suc a) ?st2")
      have "attemptUpdate e r u k d a st = (b, st3\<lparr>updating := False\<rparr>)"
        using t Inl True a3 by (subst attemptUpdate.simps) simp
      then show ?thesis
        using w3 a3 by simp
    next
      case False
      have "writes_merged e r u n (trace st1 @ [Console_error x])"
        using wm_other [OF w1, of "Console_error x"] by simp
      then show ?thesis
        using t Inl False by (subst attemptUpdate.simps) simp
    qed
  qed
qed

lemma wm_same_key:
  assumes "writes_merged e r u n tr" and "writeApiKey r' = writeApiKey r"
  shows "writes_merged e r' u n tr"
  using assms unfolding writes_merged_def by simp

section \<open>A rejecting write endpoint\<close>

lemma tryUpdate_rejected:
  assumes rej: "\<forall>t. \<exists>status body. writeResponse e t = Write_http status body \<and> ok status
                    \<and> num_le (StringToNumber e body) (Fin 0)"
  shows "\<exists>x st' evs. tryUpdate e r u st = (Inl x, st') \<and> trace st' = trace st @ evs
           \<and> length (filter is_read evs) = 1 \<and> filter is_pause evs = []
           \<and> length (filter is_write evs) \<le> 1
           \<and> ((\<forall>t. \<exists>data. read_result (readResponse e t) = Inr data) \<longrightarrow>
                length (filter is_write evs) = 1)"
proof (cases "read_result (readResponse e (length (trace st)))")
  case (Inl x)
  let ?st0 = "st\<lparr>updating := True, error := None\<rparr>"
  from Inl have "read_result (readResponse e (length (trace ?st0))) = Inl x" by simp
  from fetch_err [OF this, of r] obtain st' where
    f: "fetchChannelData e r ?st0 = (Inl x, st')" and
    t: "trace st' = trace st @ [Fetch_last (readResponse e (length (trace st))), Console_error x]"
    by auto
  have "tryUpdate e r u st = (Inl x, st')"
    by (simp add: tryUpdate_def f)
  moreover have "\<not> (\<forall>t. \<exists>data. read_result (readResponse e t) = Inr data)"
    using Inl by (metis sum.distinct(1))
  ultimately show ?thesis using t by simp
next
  case (Inr data)
  let ?st0 = "st\<lparr>updating := True, error := None\<rparr>"
  from Inr have "read_result (readResponse e (length (trace ?st0))) = Inr data" by simp
  from fetch_ok [OF this, of r] obtain st' where
    f: "fetchChannelData e r ?st0 = (Inr data, st')" and
    t: "trace st' = trace st @ [Fetch_last (readResponse e (length (trace st)))]"
    by auto
  from rej obtain status body where
    w: "writeResponse e (length (trace st')) = Write_http status body" "ok status"
       "num_le (StringToNumber e body) (Fin 0)"
    by blast
  let ?p = "buildParams e (writeApiKey r) data u (toISOString e (length (trace st')))"
  let ?st1 = "st'\<lparr>trace := trace st' @ [Fetch_update ?p (Write_http status body)]\<rparr>"
  have "submitUpdate e r u data st' = (Inl UpdateFailed, ?st1)"
    using w by (simp add: submitUpdate_def Let_def)
  then have "tryUpdate e r u st = (Inl UpdateFailed, ?st1)"
    by (simp add: tryUpdate_def f)
  moreover have "trace ?st1 = trace st @ [Fetch_last (readResponse e (length (trace st))),
                                         Fetch_update ?p (Write_http status body)]"
    using t by simp
  ultimately show ?thesis by simp
qed

lemma attemptUpdate_rejected:
  assumes rej: "\<forall>t. \<exists>status body. writeResponse e t = Write_http status body \<and> ok status
                    \<and> num_le (StringToNumber e body) (Fin 0)"
  shows "\<exists>st' evs. attemptUpdate e r u n d a st = (False, st') \<and> trace st' = trace st @ evs
           \<and> error st' = Some Update_failed_msg \<and> updating st' = False
           \<and> length (filter is_read evs) = nat (max 1 (n - int a))
           \<and> filter is_pause evs = replicate (nat (max 1 (n - int a)) - 1) (SetTimeout d)
           \<and> length (filter is_write evs) \<le> nat (max 1 (n - int a))
           \<and> ((\<forall>t. \<exists>data. read_result (readResponse e t) = Inr data) \<longrightarrow>
                length (filter is_write evs) = nat (max 1 (n - int a)))"
  using rej
proof (induction e r u n d a st rule: attemptUpdate.induct)
  case (1 e r u n d a st)
  note rj = "1.prems"
  from tryUpdate_rejected [OF rj, where r = r and u = u and st = st] obtain x st1 evs1 where
    t: "tryUpdate e r u st = (Inl x, st1)" and
    tr: "trace st1 = trace st @ evs1" and
    c: "length (filter is_read evs1) = 1" "filter is_pause evs1 = []"
       "length (filter is_write evs1) \<le> 1"
       "(\<forall>t. \<exists>data. read_result (readResponse e t) = Inr data) \<longrightarrow>
          length (filter is_write evs1) = 1"
    by blast
  show ?case
  proof (cases "int (Suc a) < n")
    case True
    let ?st2 = "st1\<lparr>trace := trace st1 @ [SetTimeout d]\<rparr>"
    from "1.IH" [OF t [symmetric] refl True rj] obtain st3 evs3 where
      a: "attemptUpdate e r u n d (Suc a) ?st2 = (False, st3)" and
      tr3: "trace st3 = trace ?st2 @ evs3" and
      c3: "error st3 = Some Update_failed_msg"
          "length (filter is_read evs3) = nat (max 1 (n - int (Suc a)))"
          "filter is_pause evs3 = replicate (nat (max 1 (n - int (Suc a))) - 1) (SetTimeout d)"
          "length (filter is_write evs3) \<le> nat (max 1 (n - int (Suc a)))"
          "(\<forall>t. \<exists>data. read_result (readResponse e t) = Inr data) \<longrightarrow>
             length (filter is_write evs3) = nat (max 1 (n - int (Suc a)))"
      by blast
    have res: "attemptUpdate e r u n d a st = (False, st3\<lparr>updating := False\<rparr>)"
      using t True a by (subst attemptUpdate.simps) simp
    define m where "m = nat (max 1 (n - int a))"
    define m' where "m' = nat (max 1 (n - int (Suc a)))"
    have k: "m = Suc m'" and k2: "m' = Suc (m' - 1)"
      using True by (simp_all add: m_def m'_def)
    note c3' = c3(2-5) [folded m'_def]
    let ?evs = "evs1 @ SetTimeout d # evs3"
    have e0: "trace (st3\<lparr>updating := False\<rparr>) = trace st @ ?evs"
      using tr tr3 by simp
    have e1: "length (filter is_read ?evs) = m"
      using c(1) c3'(1) k by simp
    have "filter is_pause ?evs = SetTimeout d # replicate (m' - 1) (SetTimeout d)"
      using c(2) c3'(2) by simp
    also have "\<dots> = replicate m' (SetTimeout d)"
      using k2 by (metis replicate_Suc)
    finally have e2: "filter is_pause ?evs = replicate (m - 1) (SetTimeout d)"
      using k by simp
    have e3: "length (filter is_write ?evs) \<le> m"
      using c(3) c3'(3) k by simp
    have e4: "(\<forall>t. \<exists>data. read_result (readResponse e t) = Inr data) \<longrightarrow>
                length (filter is_write ?evs) = m"
      using c(4) c3'(4) k by simp
    show ?thesis
      unfolding m_def [symmetric]
      using res c3(1) e0 e1 e2 e3 e4
      by (intro exI [of _ "st3\<lparr>updating := False\<rparr>"] exI [of _ ?evs]) simp
  next
    case False
    let ?st2 = "st1\<lparr>trace := trace st1 @ [Console_error x], error := Some Update_failed_msg,
                     updating := False\<rparr>"
    have res: "attemptUpdate e r u n d a st = (False, ?st2)"
      using t False by (subst attemptUpdate.simps) simp
    have k: "nat (max 1 (n - int a)) = 1"
      using False by simp
    let ?evs = "evs1 @ [Console_error x]"
    have "trace ?st2 = trace st @ ?evs"
      using tr by simp
    then show ?thesis
      using res c k by (intro exI [of _ ?st2] exI [of _ ?evs]) simp
  qed
qed

section \<open>Errors of the verification phase\<close>

lemma read_result_errors: "read_result resp \<noteq> Inl UpdateFailed"
  by (simp add: read_result_def split: read_response.splits option.splits)

lemma verifyUpdate_errors: "fst (verifyUpdate e r u st) \<noteq> Inl UpdateFailed"
proof -
  have "fst (verifyUpdate e r u st) = Inl UpdateFailed \<Longrightarrow> fst (fetchChannelData e r st) = Inl UpdateFailed"
    by (cases "fetchChannelData e r st") (auto simp: verifyUpdate_def split: sum.splits)
  then show ?thesis
    using read_result_errors by (auto simp: fetch_result)
qed

lemma verifyLoop_errors: "fst (verifyLoop e r u k st) \<noteq> Inl UpdateFailed"
proof (induction k arbitrary: st)
  case 0
  then show ?case by simp
next
  case (Suc k)
  obtain res st' where v: "verifyUpdate e r u st = (res, st')"
    by (cases "verifyUpdate e r u st")
  with verifyUpdate_errors [of e r u st] have ne: "res \<noteq> Inl UpdateFailed" by simp
  show ?case
  proof (cases res)
    case (Inl x)
    with v ne show ?thesis by simp
  next
    case (Inr b)
    with v Suc.IH show ?thesis by (cases b) simp_all
  qed
qed

lemma verifyPhase_errors: "fst (verifyPhase e r u st) \<noteq> Inl UpdateFailed"
proof -
  obtain res st' where v: "verifyLoop e r u 3 st = (res, st')"
    by (cases "verifyLoop e r u 3 st")
  with verifyLoop_errors [of e r u 3 st] have "res \<noteq> Inl UpdateFailed" by simp
  with v show ?thesis
    by (cases res) (simp_all add: verifyPhase_def)
qed

section \<open>Evaluating the worked environments\<close>

lemma verifyLoop_3: "verifyLoop e r u 3 st = verifyLoop e r u (Suc (Suc (Suc 0))) st"
  by (simp only: numeral_3_eq_3)

lemmas env_defs = env_rejecting_def env_accepting_def env_garbled_def
  env_modeless_def render_auto_def state_idle_def autoSnapshot_def manualSnapshot_def
  integerLiteral_def integerText_def state_pending_def env_sparse_def sparseSnapshot_def

lemmas run_defs = updateThingSpeak_def retryBudget_def retryDelay_def attemptUpdate.simps
  tryUpdate_def submitUpdate_def verifyPhase_def verifyUpdate_def fetchChannelData_def
  checkMode_def currentMode_def expectedMode_def read_result_def ok_def buildParams_def
  mergedRecord_def URLSearchParams_def
  spread_def getProp_def firstKey_def strict_eq_def num_eq_def Let_def elevated_def
  handleModeChange_def handlePumpToggle_def newMode_def modeString_def pumpNewState_def
  revertPump_def verifyLoop_3

lemma rejecting_env:
  "\<forall>t. \<exists>status body. writeResponse env_rejecting t = Write_http status body \<and> ok status
            \<and> num_le (StringToNumber env_rejecting body) (Fin 0)"
  by (simp add: env_rejecting_def ok_def integerLiteral_def)

lemma rejecting_fails: "\<not> fst (updateThingSpeak env_rejecting r u options st)"
  using attemptUpdate_rejected [OF rejecting_env, of r u "retryBudget options" "retryDelay options" 0 st]
  by (auto simp: updateThingSpeak_def)

section \<open>Verification compares the first key only\<close>



section \<open>The retry budget against a rejecting endpoint\<close>



section \<open>What a write request carries\<close>

text \<open>
  Claim C3 as stated: a write carries the snapshot just fetched, so that a field outside
  the update is not altered. A field the service sends as \<^verbatim>\<open>null\<close> is altered: the request
  carries it as the text \<^verbatim>\<open>null\<close>.
\<close>

theorem null_field_goes_back_as_text:
  "trace (snd (updateThingSpeak env_sparse render_auto [(''field7'', JStr ''0'')]
                 \<lparr>retries = None, delay = None\<rparr> state_idle))
     = [Fetch_last (Read_http 200 (Some sparseSnapshot)),
        Fetch_update sparseRequest (Write_http 200 ''42''),
        Fetch_last (Read_http 200 (Some sparseSnapshot))]
   \<and> ''field2'' \<notin> fst ` set [(''field7'', JStr ''0'')]
   \<and> getProp sparseSnapshot ''field2'' = JNull
   \<and> map_of sparseRequest ''field2'' = Some ''null''"
  by (simp add: run_defs env_defs env_sparse_def sparseSnapshot_def sparseRequest_def)

text \<open>
  Claim C3, amended. Let the same update be issued twice in succession, under the same
  write key. Every write request of the two runs comes directly after a read that returned
  a snapshot \<open>S\<close>, and its parameters are the merge of \<open>S\<close> with the update under a fresh
  timestamp: \<^verbatim>\<open>created_at\<close> is the clock's value at the time of the request; any other key
  the update sets to a string carries that string; any other key that \<open>S\<close> holds as a
  string, as the snapshot type declares every field, carries the string just read;
  \<^verbatim>\<open>api_key\<close> is the write key unless one of the two sets it; and no other key is sent.
\<close>

theorem successive_writes_keep_string_fields:
  assumes "writeApiKey r' = writeApiKey r"
    and "trace (snd (updateThingSpeak e r' updates options'
                       (snd (updateThingSpeak e r updates options st))))
           = pre @ Fetch_update params resp # post"
    and "length (trace st) \<le> length pre"
  shows "\<exists>status S. pre \<noteq> [] \<and> last pre = Fetch_last (Read_http status (Some S)) \<and> ok status
           \<and> map_of params ''created_at'' = Some (toISOString e (length pre))
           \<and> (\<forall>k v. k \<noteq> ''created_at'' \<longrightarrow> getProp updates k = JStr v \<longrightarrow>
                  map_of params k = Some v)
           \<and> (\<forall>k v. k \<noteq> ''created_at'' \<longrightarrow> k \<notin> fst ` set updates \<longrightarrow>
                  getProp S k = JStr v \<longrightarrow> map_of params k = Some v)
           \<and> (''api_key'' \<notin> fst ` set updates \<longrightarrow> ''api_key'' \<notin> fst ` set S \<longrightarrow>
                  map_of params ''api_key'' = Some (writeApiKey r))
           \<and> (\<forall>k. k \<noteq> ''created_at'' \<longrightarrow> k \<noteq> ''api_key'' \<longrightarrow>
                  k \<notin> fst ` set updates \<longrightarrow> k \<notin> fst ` set S \<longrightarrow> map_of params k = None)"
proof -
  let ?st1 = "snd (updateThingSpeak e r updates options st)"
  let ?st2 = "snd (updateThingSpeak e r' updates options' ?st1)"
  have "writes_merged e r updates (length (trace st)) (trace ?st1)"
    unfolding updateThingSpeak_def by (rule wm_attempt [OF wm_start])
  then have "writes_merged e r' updates (length (trace st)) (trace ?st1)"
    using assms(1) by (rule wm_same_key)
  then have "writes_merged e r' updates (length (trace st)) (trace ?st2)"
    unfolding updateThingSpeak_def by (rule wm_attempt)
  with assms(2,3) obtain status S where
    p: "pre \<noteq> []" "last pre = Fetch_last (Read_http status (Some S))" "ok status"
       "params = buildParams e (writeApiKey r') S updates (toISOString e (length pre))"
    unfolding writes_merged_def by blast
  note m = map_of_buildParams [of e "writeApiKey r'" S updates "toISOString e (length pre)"]
  have c: "map_of params ''created_at'' = Some (toISOString e (length pre))"
    by (simp add: p(4) m)
  have u: "map_of params k = Some v"
    if "k \<noteq> ''created_at''" "getProp updates k = JStr v" for k v
  proof -
    have "k \<in> fst ` set updates"
      using that(2) getProp_absent [of k updates] by auto
    then show ?thesis
      using that by (simp add: p(4) m)
  qed
  have s: "map_of params k = Some v"
    if "k \<noteq> ''created_at''" "k \<notin> fst ` set updates" "getProp S k = JStr v" for k v
  proof -
    have "k \<in> fst ` set S"
      using that(3) getProp_absent [of k S] by auto
    then show ?thesis
      using that by (simp add: p(4) m)
  qed
  have n: "map_of params k = None"
    if "k \<noteq> ''created_at''" "k \<noteq> ''api_key''" "k \<notin> fst ` set updates" "k \<notin> fst ` set S" for k
    using that by (simp add: p(4) m)
  have a: "map_of params ''api_key'' = Some (writeApiKey r)"
    if "''api_key'' \<notin> fst ` set updates" "''api_key'' \<notin> fst ` set S"
  proof -
    have "map_of params ''api_key'' = Some (writeApiKey r')"
      using that by (simp add: p(4) m)
    then show ?thesis by (simp only: assms(1))
  qed
  from p(1-3) c u s a n show ?thesis by blast
qed

text \<open>
  Setting \<^verbatim>\<open>field7\<close> to \<^verbatim>\<open>"1"\<close> twice. The second run reads the manual snapshot and
  sends its other fields back as they are.
\<close>

theorem successive_writes_keep_string_fields_witness:
  "writeApiKey render_auto = writeApiKey render_auto
   \<and> trace (snd (updateThingSpeak env_accepting render_auto [(''field7'', JStr ''1'')]
                   \<lparr>retries = None, delay = None\<rparr>
                   (snd (updateThingSpeak env_accepting render_auto [(''field7'', JStr ''1'')]
                           \<lparr>retries = None, delay = None\<rparr> state_idle))))
       = [Fetch_last (Read_http 200 (Some autoSnapshot)),
          Fetch_update mergedRequest (Write_http 200 ''42''),
          Fetch_last (Read_http 200 (Some manualSnapshot)),
          Fetch_last (Read_http 200 (Some manualSnapshot))]
         @ Fetch_update secondRequest (Write_http 200 ''42'')
         # [Fetch_last (Read_http 200 (Some manualSnapshot))]
   \<and> map_of secondRequest ''field7'' = Some ''1''
   \<and> getProp manualSnapshot ''field5'' = JStr ''0''
   \<and> map_of secondRequest ''field5'' = Some ''0''
   \<and> getProp manualSnapshot ''field3'' = JStr ''37''
   \<and> map_of secondRequest ''field3'' = Some ''37''
   \<and> map_of secondRequest ''field1'' = None
   \<and> map_of secondRequest ''api_key'' = Some ''WKEY''
   \<and> map_of secondRequest ''created_at'' = Some (toISOString env_accepting 4)"
proof -
  let ?u = "[(''field7'', JStr ''1'')]"
  let ?o = "\<lparr>retries = None, delay = None\<rparr>"
  let ?pre = "[Fetch_last (Read_http 200 (Some autoSnapshot)),
          Fetch_update mergedRequest (Write_http 200 ''42''),
          Fetch_last (Read_http 200 (Some manualSnapshot)),
          Fetch_last (Read_http 200 (Some manualSnapshot))]"
  have first: "snd (updateThingSpeak env_accepting render_auto ?u ?o state_idle) =
      state_idle\<lparr>channelData := manualSnapshot,
         trace := [Fetch_last (Read_http 200 (Some autoSnapshot)),
                   Fetch_update mergedRequest (Write_http 200 ''42''),
                   Fetch_last (Read_http 200 (Some manualSnapshot))]\<rparr>"
    by (simp add: run_defs env_defs mergedRequest_def)
  have tr: "trace (snd (updateThingSpeak env_accepting render_auto ?u ?o
                   (snd (updateThingSpeak env_accepting render_auto ?u ?o state_idle))))
       = ?pre @ Fetch_update secondRequest (Write_http 200 ''42'')
         # [Fetch_last (Read_http 200 (Some manualSnapshot))]"
    unfolding first by (simp add: run_defs env_defs mergedRequest_def secondRequest_def)
  have le: "length (trace state_idle) \<le> length ?pre"
    by (simp add: state_idle_def)
  from successive_writes_keep_string_fields [OF refl tr le] obtain status S where
    ne: "?pre \<noteq> []" and l: "last ?pre = Fetch_last (Read_http status (Some S))"
    and okay: "ok status"
    and c: "map_of secondRequest ''created_at'' = Some (toISOString env_accepting (length ?pre))"
    and u: "\<forall>k v. k \<noteq> ''created_at'' \<longrightarrow> getProp ?u k = JStr v \<longrightarrow>
                  map_of secondRequest k = Some v"
    and s: "\<forall>k v. k \<noteq> ''created_at'' \<longrightarrow> k \<notin> fst ` set ?u \<longrightarrow>
                  getProp S k = JStr v \<longrightarrow> map_of secondRequest k = Some v"
    and a: "''api_key'' \<notin> fst ` set ?u \<longrightarrow> ''api_key'' \<notin> fst ` set S \<longrightarrow>
                  map_of secondRequest ''api_key'' = Some (writeApiKey render_auto)"
    and n: "\<forall>k. k \<noteq> ''created_at'' \<longrightarrow> k \<noteq> ''api_key'' \<longrightarrow>
                  k \<notin> fst ` set ?u \<longrightarrow> k \<notin> fst ` set S \<longrightarrow> map_of secondRequest k = None"
    by (elim exE conjE) (rule that, assumption+)
  from l have S: "S = manualSnapshot" by simp
  have g5: "getProp manualSnapshot ''field5'' = JStr ''0''"
    and g3: "getProp manualSnapshot ''field3'' = JStr ''37''"
    by (simp_all add: getProp_def manualSnapshot_def)
  have k7: "map_of secondRequest ''field7'' = Some ''1''"
    using u [rule_format, of "''field7''" "''1''"] by (simp add: getProp_def)
  have k5: "map_of secondRequest ''field5'' = Some ''0''"
    using s [rule_format, of "''field5''" "''0''"] g5 by (simp add: S)
  have k3: "map_of secondRequest ''field3'' = Some ''37''"
    using s [rule_format, of "''field3''" "''37''"] g3 by (simp add: S)
  have k1: "map_of secondRequest ''field1'' = None"
    using n [rule_format, of "''field1''"] by (simp add: S manualSnapshot_def)
  have ka: "map_of secondRequest ''api_key'' = Some ''WKEY''"
    using a by (simp add: S manualSnapshot_def render_auto_def)
  have kc: "map_of secondRequest ''created_at'' = Some (toISOString env_accepting 4)"
    using c by (simp add: eval_nat_numeral)
  from tr k7 g5 k5 g3 k3 k1 ka kc show ?thesis by (intro conjI refl)
qed

section \<open>The pending mode change\<close>

text \<open>
  Claim C4. The pending flag is to clear exactly when a fetched snapshot shows the
  requested mode. The component does not achieve this on an ordinary toggle from the
  automatic to the manual mode. The handler, the executor and the fetch were created by the
  render whose tab was \<^verbatim>\<open>auto\<close>; \<^verbatim>\<open>setActiveTab\<close> changes the state, not the \<^verbatim>\<open>activeTab\<close>
  of their closure, from which line 83 computes the expected mode. The first read of the
  cycle, made before any write and still showing \<^verbatim>\<open>field7 = "0"\<close> while mode 1 is
  requested, therefore clears the flag. Below: the handler runs the executor from the state
  with the flag set; the first fetch of that run starts from this state with the error
  reset, returns the snapshot of the automatic mode, and leaves the flag cleared with
  nothing but that read in the trace.
\<close>

theorem toggle_cleared_by_first_read:
  "handleModeChange env_accepting render_auto ''manual'' state_idle
     = (snd (updateThingSpeak env_accepting render_auto [(''field7'', JStr ''1'')] elevated
               (state_idle\<lparr>activeTab := ''manual'', modeChangeInProgress := True,
                             updating := True\<rparr>)))
       \<lparr>trace :=
          trace (snd (updateThingSpeak env_accepting render_auto [(''field7'', JStr ''1'')] elevated
                        (state_idle\<lparr>activeTab := ''manual'', modeChangeInProgress := True,
                                      updating := True\<rparr>)))
          @ [Toast (Mode_adopted ''manual'')],
        modeChangeInProgress := False, updating := False\<rparr>
   \<and> newMode ''manual'' = 1
   \<and> modeChangeInProgress
        (state_idle\<lparr>activeTab := ''manual'', modeChangeInProgress := True, updating := True,
                     error := None\<rparr>)
   \<and> fst (fetchChannelData env_accepting render_auto
             (state_idle\<lparr>activeTab := ''manual'', modeChangeInProgress := True, updating := True,
                          error := None\<rparr>))
       = Inr autoSnapshot
   \<and> getProp autoSnapshot ''field7'' = JStr ''0''
   \<and> \<not> modeChangeInProgress (snd (fetchChannelData env_accepting render_auto
             (state_idle\<lparr>activeTab := ''manual'', modeChangeInProgress := True, updating := True,
                          error := None\<rparr>)))
   \<and> trace (snd (fetchChannelData env_accepting render_auto
             (state_idle\<lparr>activeTab := ''manual'', modeChangeInProgress := True, updating := True,
                          error := None\<rparr>)))
       = [Fetch_last (Read_http 200 (Some autoSnapshot))]"
proof -
  let ?requested = "state_idle\<lparr>activeTab := ''manual'', modeChangeInProgress := True,
                              updating := True\<rparr>"
  let ?before = "state_idle\<lparr>activeTab := ''manual'', modeChangeInProgress := True,
                           updating := True, error := None\<rparr>"
  have differs: "\<not> num_eq (Number env_accepting (getProp (render_channelData render_auto) ''field7''))
                       (Fin (of_nat (newMode ''manual'')))"
    by (simp add: num_eq_def getProp_def render_auto_def autoSnapshot_def env_accepting_def
          integerLiteral_def newMode_def)
  have accepted: "fst (updateThingSpeak env_accepting render_auto [(''field7'', JStr ''1'')]
                         elevated ?requested)"
    by (simp add: run_defs env_defs)
  have handler: "handleModeChange env_accepting render_auto ''manual'' state_idle
     = (snd (updateThingSpeak env_accepting render_auto [(''field7'', JStr ''1'')] elevated
               ?requested))
       \<lparr>trace :=
          trace (snd (updateThingSpeak env_accepting render_auto [(''field7'', JStr ''1'')] elevated
                        ?requested))
          @ [Toast (Mode_adopted ''manual'')],
        modeChangeInProgress := False, updating := False\<rparr>"
  proof -
    obtain success st2 where run:
      "updateThingSpeak env_accepting render_auto [(''field7'', JStr ''1'')] elevated ?requested
         = (success, st2)"
      by (cases "updateThingSpeak env_accepting render_auto [(''field7'', JStr ''1'')] elevated
                   ?requested")
    with accepted have success by simp
    with differs run show ?thesis
      by (simp add: handleModeChange_def Let_def newMode_def modeString_def)
  qed
  have requested: "newMode ''manual'' = 1"
    by (simp add: newMode_def)
  have pending: "modeChangeInProgress ?before"
    by simp
  have snapshot: "fst (fetchChannelData env_accepting render_auto ?before) = Inr autoSnapshot"
    by (simp add: fetch_result env_accepting_def read_result_def ok_def state_idle_def)
  have shown: "getProp autoSnapshot ''field7'' = JStr ''0''"
    by (simp add: getProp_def autoSnapshot_def)
  have expected: "num_eq (currentMode env_accepting autoSnapshot)
                         (expectedMode (render_activeTab render_auto))"
    by (simp add: num_eq_def currentMode_def expectedMode_def getProp_def autoSnapshot_def
          render_auto_def env_accepting_def integerLiteral_def)
  have cleared_flag: "\<not> modeChangeInProgress (snd (fetchChannelData env_accepting render_auto ?before))"
    using expected
    by (simp add: fetchChannelData_def checkMode_def Let_def env_accepting_def read_result_def
          ok_def state_idle_def)
  have only_read: "trace (snd (fetchChannelData env_accepting render_auto ?before))
       = [Fetch_last (Read_http 200 (Some autoSnapshot))]"
    by (simp add: fetchChannelData_def Let_def env_accepting_def read_result_def ok_def
          state_idle_def)
  from handler requested pending snapshot shown cleared_flag only_read
  show ?thesis by (intro conjI)
qed

section \<open>Mode toggle\<close>

text \<open>
  Claim C5. When the mode number of the snapshot the handler sees, \<^verbatim>\<open>Number(field7)\<close>, is
  already the requested one, the handler only records the selected tab: the executor is not
  invoked and no request of any kind is issued.
\<close>

theorem mode_toggle_noop:
  assumes "num_eq (Number e (getProp (render_channelData r) ''field7'')) (Fin (of_nat (newMode v)))"
  shows "handleModeChange e r v st = st\<lparr>activeTab := v\<rparr>
         \<and> trace (handleModeChange e r v st) = trace st"
  using assms by (simp add: handleModeChange_def Let_def)

text \<open>
  Selecting \<^verbatim>\<open>auto\<close> while the snapshot shows \<^verbatim>\<open>field7 = "0"\<close>.
\<close>

theorem mode_toggle_noop_witness:
  "num_eq (Number env_accepting (getProp (render_channelData render_auto) ''field7''))
          (Fin (of_nat (newMode ''auto'')))
   \<and> handleModeChange env_accepting render_auto ''auto'' state_idle = state_idle\<lparr>activeTab := ''auto''\<rparr>
   \<and> trace (handleModeChange env_accepting render_auto ''auto'' state_idle) = []"
proof -
  have h: "num_eq (Number env_accepting (getProp (render_channelData render_auto) ''field7''))
          (Fin (of_nat (newMode ''auto'')))"
    by (simp add: num_eq_def getProp_def render_auto_def autoSnapshot_def env_accepting_def
          integerLiteral_def newMode_def)
  have t: "trace state_idle = []"
    by (simp add: state_idle_def)
  from mode_toggle_noop [OF h, of state_idle] h t show ?thesis by simp
qed

text \<open>
  Claim C6. When the handler does run the write-verify-retry cycle and the executor reports
  failure, the displayed tab becomes the inverse of the requested mode (\<^verbatim>\<open>manual\<close> when
  \<^verbatim>\<open>auto\<close> was requested, \<^verbatim>\<open>auto\<close> otherwise); and whatever the executor reports, the
  pending flag is cleared when the cycle ends.
\<close>

theorem mode_toggle_failure_reverts:
  assumes "\<not> num_eq (Number e (getProp (render_channelData r) ''field7'')) (Fin (of_nat (newMode v)))"
  shows "(\<not> fst (updateThingSpeak e r [(''field7'', JStr (modeString (newMode v)))] elevated
              (st\<lparr>activeTab := v, modeChangeInProgress := True, updating := True\<rparr>)) \<longrightarrow>
            activeTab (handleModeChange e r v st) = (if v = ''auto'' then ''manual'' else ''auto''))
         \<and> \<not> modeChangeInProgress (handleModeChange e r v st)"
  using assms by (simp add: handleModeChange_def Let_def newMode_def split: prod.splits)

text \<open>
  Requesting \<^verbatim>\<open>manual\<close> against an endpoint that rejects every write.
\<close>

theorem mode_toggle_failure_reverts_witness:
  "\<not> num_eq (Number env_rejecting (getProp (render_channelData render_auto) ''field7''))
              (Fin (of_nat (newMode ''manual'')))
   \<and> \<not> fst (updateThingSpeak env_rejecting render_auto
              [(''field7'', JStr (modeString (newMode ''manual'')))] elevated
              (state_idle\<lparr>activeTab := ''manual'', modeChangeInProgress := True, updating := True\<rparr>))
   \<and> activeTab (handleModeChange env_rejecting render_auto ''manual'' state_idle) = ''auto''
   \<and> \<not> modeChangeInProgress (handleModeChange env_rejecting render_auto ''manual'' state_idle)"
proof -
  have h: "\<not> num_eq (Number env_rejecting (getProp (render_channelData render_auto) ''field7''))
              (Fin (of_nat (newMode ''manual'')))"
    by (simp add: num_eq_def getProp_def render_auto_def autoSnapshot_def env_rejecting_def
          integerLiteral_def newMode_def)
  note f = rejecting_fails [of render_auto "[(''field7'', JStr (modeString (newMode ''manual'')))]"
      elevated "state_idle\<lparr>activeTab := ''manual'', modeChangeInProgress := True, updating := True\<rparr>"]
  from mode_toggle_failure_reverts [OF h, of state_idle] h f show ?thesis by simp
qed

section \<open>Pump toggle\<close>

text \<open>
  Claim C7. When the executor reports failure, the revert of the pump toggle handler leaves
  every field of the stored snapshot as the executor left it: the object it stores reads
  the same at every key \<open>k\<close>.
\<close>

theorem pump_toggle_failure_keeps_snapshot:
  assumes "\<not> fst (updateThingSpeak e r [(''field5'', JStr (pumpNewState r))] elevated
                   (st\<lparr>updating := True\<rparr>))"
  shows "getProp (channelData (handlePumpToggle e r st)) k =
         getProp (channelData (snd (updateThingSpeak e r [(''field5'', JStr (pumpNewState r))]
                                      elevated (st\<lparr>updating := True\<rparr>)))) k"
  using assms by (simp add: handlePumpToggle_def getProp_revertPump split: prod.splits)

text \<open>
  A pump toggle against an endpoint that rejects every write.
\<close>

theorem pump_toggle_failure_keeps_snapshot_witness:
  "\<not> fst (updateThingSpeak env_rejecting render_auto [(''field5'', JStr (pumpNewState render_auto))]
            elevated (state_idle\<lparr>updating := True\<rparr>))
   \<and> getProp (channelData (handlePumpToggle env_rejecting render_auto state_idle)) ''field5'' =
       getProp (channelData (snd (updateThingSpeak env_rejecting render_auto
                  [(''field5'', JStr (pumpNewState render_auto))] elevated
                  (state_idle\<lparr>updating := True\<rparr>)))) ''field5''"
proof -
  note f = rejecting_fails [of render_auto "[(''field5'', JStr (pumpNewState render_auto))]"
      elevated "state_idle\<lparr>updating := True\<rparr>"]
  from pump_toggle_failure_keeps_snapshot [OF f, of "''field5''"] f show ?thesis by simp
qed

section \<open>Corner cases of the executor\<close>

text \<open>
  Claim C8. For the empty update the compared key is \<^verbatim>\<open>undefined\<close> on both sides:
  from any state \<open>st'\<close>, \<^verbatim>\<open>verifyUpdate\<close> compares the snapshot's property of that name
  with \<^verbatim>\<open>undefined\<close>. In any attempt (whatever the budget \<open>n\<close> and the count \<open>a\<close> of earlier attempts) whose read
  returns a snapshot, whose write is not rejected (as with a positive entry id) and whose
  re-read returns a snapshot, which like every channel snapshot has no property named
  \<^verbatim>\<open>undefined\<close>, success is reported after that single re-read; so it is for the
  executor as a whole when its first attempt is such.
\<close>

theorem empty_update_verifies_vacuously:
  assumes r1: "read_result (readResponse e (length (trace st))) = Inr S"
    and w: "writeResponse e (Suc (length (trace st))) = Write_http status body" "ok status"
           "\<not> num_le (StringToNumber e body) (Fin 0)"
    and r2: "read_result (readResponse e (Suc (Suc (length (trace st))))) = Inr D"
    and u: "getProp D ''undefined'' = JUndefined"
  shows "verifyUpdate e r [] st' =
           (case fetchChannelData e r st' of
              (Inl x, st'') \<Rightarrow> (Inl x, st'')
            | (Inr newData, st'') \<Rightarrow>
                (Inr (strict_eq (getProp newData ''undefined'') JUndefined), st''))
         \<and> fst (attemptUpdate e r [] n d a st) = True
         \<and> fst (updateThingSpeak e r [] options st) = True
         \<and> trace (snd (attemptUpdate e r [] n d a st)) =
             trace st @ [Fetch_last (readResponse e (length (trace st))),
                         Fetch_update (buildParams e (writeApiKey r) S []
                                         (toISOString e (Suc (length (trace st)))))
                                      (Write_http status body),
                         Fetch_last (readResponse e (Suc (Suc (length (trace st)))))]"
proof -
  let ?st0 = "st\<lparr>updating := True, error := None\<rparr>"
  let ?n = "length (trace st)"
  from r1 have "read_result (readResponse e (length (trace ?st0))) = Inr S" by simp
  from fetch_ok [OF this, of r] obtain st1 where
    f1: "fetchChannelData e r ?st0 = (Inr S, st1)" and
    t1: "trace st1 = trace st @ [Fetch_last (readResponse e ?n)]"
    by auto
  let ?p = "buildParams e (writeApiKey r) S [] (toISOString e (Suc ?n))"
  let ?st2 = "st1\<lparr>trace := trace st1 @ [Fetch_update ?p (Write_http status body)]\<rparr>"
  have l1: "length (trace st1) = Suc ?n" using t1 by simp
  have s: "submitUpdate e r [] S st1 = verifyPhase e r [] ?st2"
    using w by (simp add: submitUpdate_def Let_def l1)
  have l2: "length (trace ?st2) = Suc (Suc ?n)" using t1 by simp
  from r2 have "read_result (readResponse e (length (trace ?st2))) = Inr D"
    by (simp only: l2)
  from fetch_ok [OF this, of r] obtain st3 where
    f3: "fetchChannelData e r ?st2 = (Inr D, st3)" and
    t3: "trace st3 = trace ?st2 @ [Fetch_last (readResponse e (length (trace ?st2)))]"
    by auto
  have v: "verifyUpdate e r [] ?st2 = (Inr True, st3)"
    using u by (simp add: verifyUpdate_def f3 firstKey_def strict_eq_def getProp_def)
  have "verifyLoop e r [] (Suc (Suc (Suc 0))) ?st2 = (Inr True, st3)"
    by (simp only: verifyLoop.simps v prod.case sum.case bool.case)
  then have "verifyPhase e r [] ?st2 = (Inr True, st3)"
    by (simp add: verifyPhase_def verifyLoop_3)
  with s f1 have t: "tryUpdate e r [] st = (Inr True, st3)"
    by (simp add: tryUpdate_def)
  have a: "attemptUpdate e r [] k d' a' st = (True, st3\<lparr>updating := False\<rparr>)" for k d' a'
    by (subst attemptUpdate.simps) (simp add: t)
  have "trace st3 = trace st @ [Fetch_last (readResponse e ?n),
                         Fetch_update ?p (Write_http status body),
                         Fetch_last (readResponse e (Suc (Suc ?n)))]"
    using t3 t1 by simp
  moreover have "verifyUpdate e r [] st' =
           (case fetchChannelData e r st' of
              (Inl x, st'') \<Rightarrow> (Inl x, st'')
            | (Inr newData, st'') \<Rightarrow>
                (Inr (strict_eq (getProp newData ''undefined'') JUndefined), st''))"
  proof -
    have "firstKey [] = ''undefined''" and "getProp [] ''undefined'' = JUndefined"
      by (simp_all add: firstKey_def getProp_def)
    then show ?thesis
      unfolding verifyUpdate_def by (simp only:)
  qed
  ultimately show ?thesis using a by (simp add: updateThingSpeak_def)
qed

text \<open>
  The empty update against an endpoint that accepts writes.
\<close>

theorem empty_update_verifies_vacuously_witness:
  "read_result (readResponse env_accepting (length (trace state_idle))) = Inr autoSnapshot
   \<and> writeResponse env_accepting (Suc (length (trace state_idle))) = Write_http 200 ''42''
   \<and> ok 200 \<and> \<not> num_le (StringToNumber env_accepting ''42'') (Fin 0)
   \<and> read_result (readResponse env_accepting (Suc (Suc (length (trace state_idle))))) = Inr manualSnapshot
   \<and> getProp manualSnapshot ''undefined'' = JUndefined
   \<and> fst (updateThingSpeak env_accepting render_auto [] \<lparr>retries = None, delay = None\<rparr> state_idle)
   \<and> fst (attemptUpdate env_accepting render_auto [] 5 2000 0 state_idle)
   \<and> length (trace (snd (attemptUpdate env_accepting render_auto [] 5 2000 0 state_idle))) = 3"
proof -
  have r1: "read_result (readResponse env_accepting (length (trace state_idle))) = Inr autoSnapshot"
    by (simp add: env_accepting_def state_idle_def read_result_def ok_def)
  have w: "writeResponse env_accepting (Suc (length (trace state_idle))) = Write_http 200 ''42''"
    "ok 200" "\<not> num_le (StringToNumber env_accepting ''42'') (Fin 0)"
    by (simp_all add: env_accepting_def ok_def integerLiteral_def)
  have r2: "read_result (readResponse env_accepting (Suc (Suc (length (trace state_idle))))) = Inr manualSnapshot"
    by (simp add: env_accepting_def state_idle_def read_result_def ok_def)
  have u: "getProp manualSnapshot ''undefined'' = JUndefined"
    by (simp add: getProp_def manualSnapshot_def)
  have t: "trace state_idle = []" by (simp add: state_idle_def)
  from empty_update_verifies_vacuously [OF r1 w r2 u, where r = render_auto and n = 5
      and d = 2000 and a = 0 and options = "\<lparr>retries = None, delay = None\<rparr>"]
  have "fst (updateThingSpeak env_accepting render_auto [] \<lparr>retries = None, delay = None\<rparr> state_idle)"
    and "fst (attemptUpdate env_accepting render_auto [] 5 2000 0 state_idle)"
    and "length (trace (snd (attemptUpdate env_accepting render_auto [] 5 2000 0 state_idle))) = 3"
    by (simp_all add: t)
  with r1 w r2 u show ?thesis by (intro conjI)
qed

text \<open>
  Claim C9. When the write request is answered, the attempt fails with the rejection
  error exactly when the status is a success and the body converts to a number \<open>\<le> 0\<close>. A
  body that converts to \<open>NaN\<close> is not rejected: under a success status the attempt goes
  on to the verification phase, from the state in which the write has been recorded.
\<close>

theorem unparsable_reply_not_rejected:
  assumes "writeResponse e (length (trace st)) = Write_http status body"
  shows "(fst (submitUpdate e r updates currentData st) = Inl UpdateFailed)
           = (ok status \<and> num_le (StringToNumber e body) (Fin 0))
         \<and> (ok status \<longrightarrow> StringToNumber e body = NaN \<longrightarrow>
              submitUpdate e r updates currentData st =
                verifyPhase e r updates
                  (st\<lparr>trace := trace st @
                        [Fetch_update (buildParams e (writeApiKey r) currentData updates
                                         (toISOString e (length (trace st))))
                                      (Write_http status body)]\<rparr>))"
  using assms verifyPhase_errors
  by (simp add: submitUpdate_def Let_def)

text \<open>
  The write endpoint answers \<^verbatim>\<open>abc\<close>.
\<close>

theorem unparsable_reply_not_rejected_witness:
  "writeResponse env_garbled (length (trace state_idle)) = Write_http 200 ''abc'' \<and> ok 200
   \<and> StringToNumber env_garbled ''abc'' = NaN
   \<and> fst (submitUpdate env_garbled render_auto [(''field7'', JStr ''0'')] autoSnapshot state_idle)
       \<noteq> Inl UpdateFailed
   \<and> submitUpdate env_garbled render_auto [(''field7'', JStr ''0'')] autoSnapshot state_idle =
       verifyPhase env_garbled render_auto [(''field7'', JStr ''0'')]
         (state_idle\<lparr>trace := trace state_idle @
            [Fetch_update (buildParams env_garbled (writeApiKey render_auto) autoSnapshot [(''field7'', JStr ''0'')]
                             (toISOString env_garbled (length (trace state_idle))))
                          (Write_http 200 ''abc'')]\<rparr>)"
proof -
  have w: "writeResponse env_garbled (length (trace state_idle)) = Write_http 200 ''abc''"
    and o: "ok 200"
    and n: "StringToNumber env_garbled ''abc'' = NaN"
    by (simp_all add: env_garbled_def ok_def integerLiteral_def)
  note claim = unparsable_reply_not_rejected [OF w, of render_auto "[(''field7'', JStr ''0'')]" autoSnapshot]
  have 1: "fst (submitUpdate env_garbled render_auto [(''field7'', JStr ''0'')] autoSnapshot state_idle)
       \<noteq> Inl UpdateFailed"
    using claim [THEN conjunct1] n by simp
  from claim [THEN conjunct2] n w o 1 show ?thesis by simp
qed

section \<open>A snapshot without a mode field\<close>

text \<open>
  Claim C10. While a mode change is pending, a fetched snapshot without \<^verbatim>\<open>field7\<close> counts
  as mode 0. If the closure of the fetch reads the tab \<^verbatim>\<open>auto\<close>, the pending flag is
  cleared and the confirmation timer, if one is running, is stopped and forgotten.
\<close>

theorem absent_mode_counts_as_auto:
  assumes "modeChangeInProgress st"
    and "read_result (readResponse e (length (trace st))) = Inr data"
    and "getProp data ''field7'' = JUndefined"
    and "render_activeTab r = ''auto''"
  shows "currentMode e data = Fin 0
         \<and> \<not> modeChangeInProgress (snd (fetchChannelData e r st))
         \<and> checkInterval (snd (fetchChannelData e r st)) = None
         \<and> cleared (snd (fetchChannelData e r st)) =
             cleared st @ (case checkInterval st of None \<Rightarrow> [] | Some t \<Rightarrow> [t])"
  using assms
  by (simp add: fetchChannelData_def checkMode_def currentMode_def expectedMode_def num_eq_def Let_def)

text \<open>
  The channel returns \<^verbatim>\<open>field5\<close> only, while a change is pending with timer 3 running.
\<close>

theorem absent_mode_counts_as_auto_witness:
  "modeChangeInProgress state_pending
   \<and> read_result (readResponse env_modeless (length (trace state_pending))) = Inr [(''field5'', JStr ''1'')]
   \<and> getProp [(''field5'', JStr ''1'')] ''field7'' = JUndefined
   \<and> render_activeTab render_auto = ''auto''
   \<and> \<not> modeChangeInProgress (snd (fetchChannelData env_modeless render_auto state_pending))
   \<and> checkInterval (snd (fetchChannelData env_modeless render_auto state_pending)) = None
   \<and> cleared (snd (fetchChannelData env_modeless render_auto state_pending)) = [3]"
proof -
  have p: "modeChangeInProgress state_pending"
    by (simp add: state_pending_def)
  have rd: "read_result (readResponse env_modeless (length (trace state_pending))) = Inr [(''field5'', JStr ''1'')]"
    by (simp add: env_modeless_def read_result_def ok_def)
  have g: "getProp [(''field5'', JStr ''1'')] ''field7'' = JUndefined"
    by (simp add: getProp_def)
  have a: "render_activeTab render_auto = ''auto''"
    by (simp add: render_auto_def)
  have c: "cleared state_pending = []" "checkInterval state_pending = Some 3"
    by (simp_all add: state_pending_def state_idle_def)
  from absent_mode_counts_as_auto [OF p rd g a] p rd g a show ?thesis
    by (simp add: c)
qed

end
